theory Spec2Isabelle
  imports Complex_Main
begin

section \<open>Data model of \<open>dashboard.py\<close>\<close>

text \<open>
  The dashboard works on two pandas data frames. A data frame is modelled as the list of
  its rows, in frame order. A date (a pandas \<open>Timestamp\<close>) is an integer, a KPI name
  is a string, and a float cell is a \<open>real option\<close>: \<open>None\<close> is the missing cell
  (\<open>NaN\<close>) and \<open>Some x\<close> a number. Numbers are exact reals: rounding of the
  64-bit floats is not part of the model.

  The forecast frame has the four columns \<open>main\<close> requires (\<open>date\<close>,
  \<open>english_name\<close>, \<open>actual_value\<close>, \<open>predicted_value\<close>) and the two optional
  columns the deep dive reads (\<open>yhat_lower\<close>, \<open>yhat_upper\<close>). The historical frame
  has \<open>date\<close>, \<open>english_name\<close> and \<open>monthly_value\<close>.
\<close>

type_synonym timestamp = int

record row =
  date :: timestamp
  english_name :: string
  actual_value :: "real option"
  predicted_value :: "real option"
  yhat_lower :: "real option"
  yhat_upper :: "real option"

record hist_row =
  h_date :: timestamp
  h_english_name :: string
  monthly_value :: real

datatype py_error = TypeError | IndexError

section \<open>Name normalisation: \<open>kpi.lower().strip()\<close>\<close>

text \<open>
  A \<open>char\<close> is a code point below 256. \<open>str.lower\<close> moves the upper-case
  letters among them to lower case, which is 32 further on: \<open>A\<close>..\<open>Z\<close> (codes
  65..90) and the accented capitals (codes 192..214 and 216..222; 215 is the
  multiplication sign). \<open>str.strip\<close> removes from both ends the characters for which
  \<open>str.isspace\<close> holds: codes 9..13, 28..32, 133 (next line) and 160 (no-break
  space).
\<close>

definition lower_char :: "char \<Rightarrow> char" where
  "lower_char c =
     (let n = (of_char c :: nat)
      in if (65 \<le> n \<and> n \<le> 90) \<or> (192 \<le> n \<and> n \<le> 214) \<or> (216 \<le> n \<and> n \<le> 222)
         then char_of (n + 32) else c)"

definition py_lower :: "string \<Rightarrow> string" where
  "py_lower s = map lower_char s"

definition is_space :: "char \<Rightarrow> bool" where
  "is_space c =
     (let n = (of_char c :: nat)
      in (9 \<le> n \<and> n \<le> 13) \<or> (28 \<le> n \<and> n \<le> 32) \<or> n = 133 \<or> n = 160)"

definition py_strip :: "string \<Rightarrow> string" where
  "py_strip s = rev (dropWhile is_space (rev (dropWhile is_space s)))"

definition normalize :: "string \<Rightarrow> string" where
  "normalize kpi = py_strip (py_lower kpi)"

text \<open>
  \<open>Series.unique()\<close>: the distinct values in order of first appearance
  (\<open>remdups\<close> keeps the last occurrence, hence the two reversals).
\<close>

definition unique :: "'a list \<Rightarrow> 'a list" where
  "unique xs = rev (remdups (rev xs))"

text \<open>
  \<open>kpi_map = {kpi.lower().strip(): kpi for kpi in unique_kpis}\<close>: the dictionary is
  filled in the order of \<open>unique_kpis\<close>, a later name overwrites an earlier one with
  the same key.
\<close>

definition kpi_map :: "row list \<Rightarrow> (string \<rightharpoonup> string)" where
  "kpi_map df =
     fold (\<lambda>kpi m. m(normalize kpi \<mapsto> kpi)) (unique (map english_name df)) Map.empty"

section \<open>\<open>DataFrame.add(other, fill_value=0)\<close>\<close>

text \<open>
  \<open>new_sales.add(used_sales, fill_value=0)\<close> first aligns the two frames, which are
  indexed by \<open>date\<close>, on their row labels. When the two indexes are equal as sequences
  nothing is reindexed and the rows are paired by position. Otherwise the frames are
  outer-joined on the label: the joined index is the sorted union of the labels, a label
  carried by rows of both sides pairs each such left row with each such right row, and a
  label of one side only pairs its rows with a row of missing cells.
\<close>

definition join_at ::
  "timestamp \<Rightarrow> row list \<Rightarrow> row list \<Rightarrow> (timestamp \<times> row option \<times> row option) list" where
  "join_at d ls rs =
     (if rs = [] then map (\<lambda>l. (d, Some l, None)) ls
      else if ls = [] then map (\<lambda>r. (d, None, Some r)) rs
      else concat (map (\<lambda>l. map (\<lambda>r. (d, Some l, Some r)) rs) ls))"

definition align :: "row list \<Rightarrow> row list \<Rightarrow> (timestamp \<times> row option \<times> row option) list" where
  "align A B =
     (if map date A = map date B then map (\<lambda>(l, r). (date l, Some l, Some r)) (zip A B)
      else concat (map (\<lambda>d. join_at d (filter (\<lambda>r. date r = d) A) (filter (\<lambda>r. date r = d) B))
                       (sort (remdups (map date A @ map date B)))))"

text \<open>
  The operation is then applied cell by cell to every column of the aligned frames.
  With \<open>fill_value=0\<close> a cell missing on exactly one side is replaced by \<open>0\<close>
  before the addition; a cell missing on both sides stays missing.
\<close>

fun add_fill :: "real option \<Rightarrow> real option \<Rightarrow> real option" where
  "add_fill None None = None"
| "add_fill (Some x) None = Some (x + 0)"
| "add_fill None (Some y) = Some (0 + y)"
| "add_fill (Some x) (Some y) = Some (x + y)"

text \<open>
  \<open>english_name\<close> is still a column of both frames when they are added (only
  \<open>date\<close> went to the index), so \<open>+\<close> is applied to it as well. Two strings are
  concatenated. A name missing on one side, which happens exactly for a label that the
  other frame does not have, is filled with the integer \<open>0\<close>, and \<open>str + int\<close>
  raises \<open>TypeError\<close>.
\<close>

fun add_fill_str :: "string option \<Rightarrow> string option \<Rightarrow> py_error + string option" where
  "add_fill_str None None = Inr None"
| "add_fill_str (Some s) None = Inl TypeError"
| "add_fill_str None (Some s) = Inl TypeError"
| "add_fill_str (Some s) (Some t) = Inr (Some (s @ t))"

text \<open>A row of the sum frame: the label and one cell per column.\<close>

record sum_row =
  s_date :: timestamp
  s_english_name :: "string option"
  s_actual_value :: "real option"
  s_predicted_value :: "real option"
  s_yhat_lower :: "real option"
  s_yhat_upper :: "real option"

definition name_cell :: "row option \<Rightarrow> string option" where
  "name_cell r = map_option english_name r"

definition num_cell :: "(row \<Rightarrow> real option) \<Rightarrow> row option \<Rightarrow> real option" where
  "num_cell f r = (case r of None \<Rightarrow> None | Some x \<Rightarrow> f x)"

definition add_aligned :: "timestamp \<times> row option \<times> row option \<Rightarrow> py_error + sum_row" where
  "add_aligned t =
     (case t of (d, l, r) \<Rightarrow>
        (case add_fill_str (name_cell l) (name_cell r) of
           Inl e \<Rightarrow> Inl e
         | Inr n \<Rightarrow> Inr \<lparr>s_date = d, s_english_name = n,
                        s_actual_value = add_fill (num_cell actual_value l) (num_cell actual_value r),
                        s_predicted_value = add_fill (num_cell predicted_value l) (num_cell predicted_value r),
                        s_yhat_lower = add_fill (num_cell yhat_lower l) (num_cell yhat_lower r),
                        s_yhat_upper = add_fill (num_cell yhat_upper l) (num_cell yhat_upper r)\<rparr>))"

text \<open>All rows of the sum frame, or the first error.\<close>

fun collect :: "(py_error + 'a) list \<Rightarrow> py_error + 'a list" where
  "collect [] = Inr []"
| "collect (x # xs) =
     (case x of Inl e \<Rightarrow> Inl e
      | Inr v \<Rightarrow> (case collect xs of Inl e \<Rightarrow> Inl e | Inr vs \<Rightarrow> Inr (v # vs)))"

definition frame_add :: "row list \<Rightarrow> row list \<Rightarrow> py_error + sum_row list" where
  "frame_add A B = collect (map add_aligned (align A B))"

section \<open>\<open>calculate_summary_kpis\<close>\<close>

text \<open>
  \<open>total = a.add(b, fill_value=0)[['actual_value', 'predicted_value']].reset_index()\<close>
  followed by \<open>total['english_name'] = name\<close>: the rows of \<open>total\<close> have the
  columns \<open>date\<close>, \<open>actual_value\<close>, \<open>predicted_value\<close> and \<open>english_name\<close>.
  \<open>pd.concat\<close> leaves every column that \<open>total\<close> lacks missing on its rows.
\<close>

definition total_row :: "string \<Rightarrow> sum_row \<Rightarrow> row" where
  "total_row name s =
     \<lparr>date = s_date s, english_name = name,
      actual_value = s_actual_value s, predicted_value = s_predicted_value s,
      yhat_lower = None, yhat_upper = None\<rparr>"

definition kpi_rows :: "row list \<Rightarrow> string \<Rightarrow> row list" where
  "kpi_rows df kpi = filter (\<lambda>r. english_name r = kpi) df"

text \<open>
  The body of each of the two \<open>if\<close> blocks (source lines 85-94 and 97-106); the blocks
  differ in the two keys and the name of the total only. \<open>m\<close> is \<open>kpi_map\<close>, which
  the function builds once, from the frame it was given.
\<close>

definition add_total ::
  "(string \<rightharpoonup> string) \<Rightarrow> string \<Rightarrow> string \<Rightarrow> string \<Rightarrow> row list \<Rightarrow> py_error + row list" where
  "add_total m a_lower b_lower name df_processed =
     (case (m a_lower, m b_lower) of
        (Some a_kpi, Some b_kpi) \<Rightarrow>
          (case frame_add (kpi_rows df_processed a_kpi) (kpi_rows df_processed b_kpi) of
             Inl e \<Rightarrow> Inl e
           | Inr total_rows \<Rightarrow> Inr (df_processed @ map (total_row name) total_rows))
      | _ \<Rightarrow> Inr df_processed)"

definition new_sales_lower :: string where
  "new_sales_lower = ''new vehicles - retail''"

definition used_sales_lower :: string where
  "used_sales_lower = ''used vehicles - retail''"

definition new_gp_lower :: string where
  "new_gp_lower = ''gross profit - new vehicles''"

definition used_gp_lower :: string where
  "used_gp_lower = ''gross profit - used vehicles''"

definition total_sales_name :: string where
  "total_sales_name = ''Total Vehicle Sales (Verified)''"

definition total_gp_name :: string where
  "total_gp_name = ''Total Gross Profit (Verified)''"

definition calculate_summary_kpis :: "row list \<Rightarrow> py_error + row list" where
  "calculate_summary_kpis df =
     (let m = kpi_map df in
      case add_total m new_sales_lower used_sales_lower total_sales_name df of
        Inl e \<Rightarrow> Inl e
      | Inr df_processed \<Rightarrow> add_total m new_gp_lower used_gp_lower total_gp_name df_processed)"

section \<open>\<open>render_kpi_deep_dive\<close>\<close>

text \<open>
  The function draws two charts; the model returns the data handed to them.
  \<open>kpi_data = df[df['english_name'] == selected_kpi]\<close> is plotted against its
  \<open>date\<close> column, and \<open>forecasts = kpi_data[kpi_data['actual_value'].isna()].head(3)\<close>
  fills the bar chart. A boolean mask keeps the frame order, and \<open>head(3)\<close> keeps the
  first three rows of what it is given.
\<close>

record deep_dive =
  dd_kpi_data :: "row list"
  dd_forecasts :: "row list"

definition render_kpi_deep_dive :: "row list \<Rightarrow> string \<Rightarrow> deep_dive" where
  "render_kpi_deep_dive df selected_kpi =
     (let kpi_data = filter (\<lambda>r. english_name r = selected_kpi) df;
          forecasts = take 3 (filter (\<lambda>r. actual_value r = None) kpi_data)
      in \<lparr>dd_kpi_data = kpi_data, dd_forecasts = forecasts\<rparr>)"

section \<open>The correlation matrix\<close>

text \<open>
  \<open>cleaned_df.pivot_table(index='date', columns='english_name', values='monthly_value')\<close>
  has one row per distinct date, in ascending order, and one column per distinct KPI
  name; a cell is the mean of the \<open>monthly_value\<close>s of the rows with that date and
  name, and is missing when there is no such row. \<open>fillna(0)\<close> replaces a missing cell
  by \<open>0\<close>.
\<close>

definition mean :: "real list \<Rightarrow> real" where
  "mean xs = sum_list xs / real (length xs)"

definition pivot_index :: "hist_row list \<Rightarrow> timestamp list" where
  "pivot_index cleaned_df = sort (remdups (map h_date cleaned_df))"

definition pivot_columns :: "hist_row list \<Rightarrow> string set" where
  "pivot_columns cleaned_df = set (map h_english_name cleaned_df)"

definition pivot_cell :: "hist_row list \<Rightarrow> timestamp \<Rightarrow> string \<Rightarrow> real option" where
  "pivot_cell cleaned_df d kpi =
     (let vs = map monthly_value (filter (\<lambda>r. h_date r = d \<and> h_english_name r = kpi) cleaned_df)
      in if vs = [] then None else Some (mean vs))"

definition fillna0 :: "real option \<Rightarrow> real" where
  "fillna0 c = (case c of None \<Rightarrow> 0 | Some v \<Rightarrow> v)"

definition pivot_column :: "hist_row list \<Rightarrow> string \<Rightarrow> real list" where
  "pivot_column cleaned_df kpi =
     map (\<lambda>d. fillna0 (pivot_cell cleaned_df d kpi)) (pivot_index cleaned_df)"

text \<open>
  \<open>DataFrame.corr()\<close> is the Pearson coefficient of each pair of columns, over all
  rows (after \<open>fillna(0)\<close> no cell is missing): the sum of the products of the
  deviations from the two means, divided by the square root of the product of the two
  sums of squared deviations. The entry is \<open>NaN\<close> when there is no row or when that
  divisor is \<open>0\<close>.
\<close>

definition ssqdm :: "real list \<Rightarrow> real" where
  "ssqdm xs = (\<Sum>x\<leftarrow>xs. (x - mean xs) * (x - mean xs))"

definition covxy :: "real list \<Rightarrow> real list \<Rightarrow> real" where
  "covxy xs ys = (\<Sum>(x, y)\<leftarrow>zip xs ys. (x - mean xs) * (y - mean ys))"

definition pearson :: "real list \<Rightarrow> real list \<Rightarrow> real option" where
  "pearson xs ys =
     (if length xs < 1 then None
      else let divisor = sqrt (ssqdm xs * ssqdm ys)
           in if divisor \<noteq> 0 then Some (covxy xs ys / divisor) else None)"

definition correlation_matrix :: "hist_row list \<Rightarrow> string \<Rightarrow> string \<Rightarrow> real option" where
  "correlation_matrix cleaned_df a b =
     pearson (pivot_column cleaned_df a) (pivot_column cleaned_df b)"

section \<open>\<open>render_scenario_planner\<close>\<close>

text \<open>
  Arithmetic on float cells: a \<open>NaN\<close> operand gives \<open>NaN\<close>.
\<close>

definition fmul :: "real option \<Rightarrow> real option \<Rightarrow> real option" where
  "fmul a b = (case (a, b) of (Some x, Some y) \<Rightarrow> Some (x * y) | _ \<Rightarrow> None)"

definition fadd :: "real option \<Rightarrow> real option \<Rightarrow> real option" where
  "fadd a b = (case (a, b) of (Some x, Some y) \<Rightarrow> Some (x + y) | _ \<Rightarrow> None)"

text \<open>\<open>.iloc[0]\<close> raises \<open>IndexError\<close> on an empty selection.\<close>

definition iloc0 :: "'a list \<Rightarrow> py_error + 'a" where
  "iloc0 xs = (case xs of [] \<Rightarrow> Inl IndexError | x # _ \<Rightarrow> Inr x)"

text \<open>
  The function shows its results on the page; the model returns them. The early
  \<open>return\<close> after the warning is the outcome \<open>NoFutureData\<close>. The two sidebar
  widgets are inputs: \<open>selected_month\<close> is the value of the select box, whose options
  are \<open>future_dates\<close>, and \<open>slider\<close> is the integer of the slider, which the
  function divides by \<open>100.0\<close>.
\<close>

record scenario =
  sc_correlation :: "real option"
  sc_original_driver_pred :: "real option"
  sc_original_impacted_pred :: "real option"
  sc_adjusted_driver_pred :: "real option"
  sc_adjusted_impacted_pred :: "real option"

datatype outcome = NoFutureData | Planned scenario

definition future_dates :: "row list \<Rightarrow> string \<Rightarrow> timestamp list" where
  "future_dates forecast_df driver_kpi =
     map date (filter (\<lambda>r. actual_value r = None)
                 (filter (\<lambda>r. english_name r = driver_kpi) forecast_df))"

definition lookup_correlation :: "hist_row list \<Rightarrow> string \<Rightarrow> string \<Rightarrow> real option" where
  "lookup_correlation cleaned_df driver_kpi impacted_kpi =
     (if driver_kpi \<in> pivot_columns cleaned_df \<and> impacted_kpi \<in> pivot_columns cleaned_df
      then correlation_matrix cleaned_df driver_kpi impacted_kpi else Some 0)"

definition render_scenario_planner ::
  "row list \<Rightarrow> hist_row list \<Rightarrow> string \<Rightarrow> string \<Rightarrow> timestamp \<Rightarrow> int \<Rightarrow> py_error + outcome" where
  "render_scenario_planner forecast_df cleaned_df driver_kpi impacted_kpi selected_month slider =
     (let driver_data = filter (\<lambda>r. english_name r = driver_kpi) forecast_df in
      if future_dates forecast_df driver_kpi = [] then Inr NoFutureData
      else
        let change_percentage = real_of_int slider / 100;
            correlation = lookup_correlation cleaned_df driver_kpi impacted_kpi
        in case iloc0 (map predicted_value (filter (\<lambda>r. date r = selected_month) driver_data)) of
             Inl e \<Rightarrow> Inl e
           | Inr original_driver_pred \<Rightarrow>
               (case iloc0 (map predicted_value
                       (filter (\<lambda>r. english_name r = impacted_kpi \<and> date r = selected_month)
                          forecast_df)) of
                  Inl e \<Rightarrow> Inl e
                | Inr original_impacted_pred \<Rightarrow>
                    Inr (Planned
                      \<lparr>sc_correlation = correlation,
                       sc_original_driver_pred = original_driver_pred,
                       sc_original_impacted_pred = original_impacted_pred,
                       sc_adjusted_driver_pred =
                         fmul original_driver_pred (Some (1 + change_percentage)),
                       sc_adjusted_impacted_pred =
                         fmul original_impacted_pred
                           (fadd (Some 1) (fmul (Some change_percentage) correlation))\<rparr>)))"

section \<open>Example frames\<close>

text \<open>
  Small frames on which the functions are evaluated below. \<open>forecast_row\<close> builds a
  forecast row whose confidence band is the prediction minus and plus one.
\<close>

definition forecast_row :: "timestamp \<Rightarrow> string \<Rightarrow> real option \<Rightarrow> real option \<Rightarrow> row" where
  "forecast_row d kpi a p =
     \<lparr>date = d, english_name = kpi, actual_value = a, predicted_value = p,
      yhat_lower = map_option (\<lambda>v. v - 1) p, yhat_upper = map_option (\<lambda>v. v + 1) p\<rparr>"

definition hist :: "timestamp \<Rightarrow> string \<Rightarrow> real \<Rightarrow> hist_row" where
  "hist d kpi v = \<lparr>h_date = d, h_english_name = kpi, monthly_value = v\<rparr>"

text \<open>Both sales components cover the dates 1 and 2.\<close>

definition ex_sales :: "row list" where
  "ex_sales =
     [forecast_row 1 ''New Vehicles - Retail'' (Some 10) (Some 11),
      forecast_row 2 ''New Vehicles - Retail'' None (Some 12),
      forecast_row 1 ''Used Vehicles - Retail'' None None,
      forecast_row 2 ''Used Vehicles - Retail'' None (Some 6)]"

text \<open>\<open>ex_sales\<close> followed by the two rows of its sales total.\<close>

definition ex_sales_once :: "row list" where
  "ex_sales_once = ex_sales @
     [\<lparr>date = 1, english_name = total_sales_name, actual_value = Some 10,
       predicted_value = Some 11, yhat_lower = None, yhat_upper = None\<rparr>,
      \<lparr>date = 2, english_name = total_sales_name, actual_value = None,
       predicted_value = Some 18, yhat_lower = None, yhat_upper = None\<rparr>]"

text \<open>New sales on the dates 1 and 2 (January, February), used sales on 2 and 3.\<close>

definition ex_union :: "row list" where
  "ex_union =
     [forecast_row 1 ''New Vehicles - Retail'' (Some 10) (Some 11),
      forecast_row 2 ''New Vehicles - Retail'' None (Some 12),
      forecast_row 2 ''Used Vehicles - Retail'' None (Some 5),
      forecast_row 3 ''Used Vehicles - Retail'' None (Some 6)]"

text \<open>New sales on the dates 1 and 2, used sales on date 2 only.\<close>

definition ex_one_sided :: "row list" where
  "ex_one_sided =
     [forecast_row 1 ''New Vehicles - Retail'' (Some 5) (Some 4),
      forecast_row 2 ''New Vehicles - Retail'' None (Some 12),
      forecast_row 2 ''Used Vehicles - Retail'' None (Some 6)]"

text \<open>
  The new-sales name is written in capitals and ends in a no-break space (code 160), the
  used-sales name starts with a next-line character (code 133).
\<close>

definition ex_nbsp :: "row list" where
  "ex_nbsp =
     [forecast_row 1 (''NEW VEHICLES - RETAIL'' @ [CHR 0xA0]) (Some 10) (Some 11),
      forecast_row 1 (CHR 0x85 # ''Used Vehicles - Retail'') None (Some 6)]"

text \<open>No pair of components is complete.\<close>

definition ex_unresolved :: "row list" where
  "ex_unresolved =
     [forecast_row 1 ''New Vehicles - Retail'' (Some 10) (Some 11),
      forecast_row 1 ''Parts Sales'' (Some 3) None,
      forecast_row 2 ''Gross Profit - Used Vehicles'' None (Some 8)]"

text \<open>Five future rows of one KPI, latest date first.\<close>

definition ex_unsorted :: "row list" where
  "ex_unsorted =
     [forecast_row 5 ''Parts Sales'' None (Some 50),
      forecast_row 4 ''Parts Sales'' None (Some 40),
      forecast_row 3 ''Parts Sales'' None (Some 30),
      forecast_row 2 ''Parts Sales'' None (Some 20),
      forecast_row 1 ''Parts Sales'' None (Some 10)]"

text \<open>One historical and five future rows of one KPI, in ascending date order.\<close>

definition ex_sorted :: "row list" where
  "ex_sorted =
     [forecast_row 1 ''Parts Sales'' (Some 9) (Some 10),
      forecast_row 2 ''Parts Sales'' None (Some 20),
      forecast_row 3 ''Parts Sales'' None (Some 30),
      forecast_row 4 ''Parts Sales'' None (Some 40),
      forecast_row 5 ''Parts Sales'' None (Some 50),
      forecast_row 6 ''Parts Sales'' None (Some 60)]"

text \<open>
  A forecast frame for the scenario planner: the driver is forecast at 1000 for date 3
  (March), the gross profit at 400, and the service revenue, which the historical frame
  \<open>ex_hist\<close> does not know, at 250.
\<close>

definition ex_forecast :: "row list" where
  "ex_forecast =
     [forecast_row 2 ''New Vehicles - Retail'' (Some 900) (Some 950),
      forecast_row 3 ''New Vehicles - Retail'' None (Some 1000),
      forecast_row 2 ''Gross Profit - New Vehicles'' (Some 380) (Some 390),
      forecast_row 3 ''Gross Profit - New Vehicles'' None (Some 400),
      forecast_row 3 ''Service Revenue'' None (Some 250)]"

text \<open>A forecast frame whose driver has historical rows only.\<close>

definition ex_history_only :: "row list" where
  "ex_history_only =
     [forecast_row 1 ''New Vehicles - Retail'' (Some 900) (Some 950),
      forecast_row 2 ''New Vehicles - Retail'' (Some 910) (Some 1000),
      forecast_row 3 ''Gross Profit - New Vehicles'' None (Some 400)]"

text \<open>
  A historical frame: two KPIs with correlation one half, and a KPI that never moves.
\<close>

definition ex_hist :: "hist_row list" where
  "ex_hist =
     [hist 1 ''New Vehicles - Retail'' 2, hist 2 ''New Vehicles - Retail'' 0,
      hist 3 ''New Vehicles - Retail'' 1,
      hist 1 ''Gross Profit - New Vehicles'' 2, hist 2 ''Gross Profit - New Vehicles'' 1,
      hist 3 ''Gross Profit - New Vehicles'' 0,
      hist 1 ''Parts Sales'' 7, hist 2 ''Parts Sales'' 7, hist 3 ''Parts Sales'' 7]"

section \<open>Properties of \<open>calculate_summary_kpis\<close>\<close>

lemma collect_map_Inr: "collect (map Inr vs) = Inr vs"
  by (induction vs) auto

lemma collect_Inr_D: "collect xs = Inr vs \<Longrightarrow> xs = map Inr vs"
  by (induction xs arbitrary: vs) (auto split: sum.splits)

lemma collect_Inl_mem: "collect xs = Inl e \<Longrightarrow> Inl e \<in> set xs"
  by (induction xs) (auto split: sum.splits)

lemma collect_mem_Inl: "Inl e \<in> set xs \<Longrightarrow> \<exists>e'. collect xs = Inl e'"
  by (induction xs) (auto split: sum.splits)

lemma add_aligned_error: "add_aligned t = Inl e \<Longrightarrow> e = TypeError"
  by (cases t; cases "fst (snd t)"; cases "snd (snd t)")
     (auto simp: add_aligned_def name_cell_def split: sum.splits)

lemma frame_add_error: "frame_add A B = Inl e \<Longrightarrow> e = TypeError"
  unfolding frame_add_def by (auto dest!: collect_Inl_mem add_aligned_error [OF sym])

lemma add_total_error: "add_total m a b name df = Inl e \<Longrightarrow> e = TypeError"
  by (auto simp: add_total_def split: option.splits sum.splits dest: frame_add_error)

lemma add_total_unresolved:
  "m a = None \<or> m b = None \<Longrightarrow> add_total m a b name df = Inr df"
  by (auto simp: add_total_def split: option.splits)

lemma kpi_rows_append: "kpi_rows (df @ ex) k = kpi_rows df k @ kpi_rows ex k"
  by (simp add: kpi_rows_def)

lemma kpi_rows_other: "\<forall>r\<in>set ex. english_name r \<noteq> k \<Longrightarrow> kpi_rows ex k = []"
  by (induction ex) (auto simp: kpi_rows_def)

lemma add_total_shape:
  assumes "add_total m a b name df = Inr out"
  shows "\<exists>ex. out = df @ ex \<and>
           (\<forall>r\<in>set ex. english_name r = name \<and> yhat_lower r = None \<and> yhat_upper r = None) \<and>
           (\<forall>ex'. (\<forall>k r. (m a = Some k \<or> m b = Some k) \<longrightarrow> r \<in> set ex' \<longrightarrow> english_name r \<noteq> k)
                  \<longrightarrow> add_total m a b name (df @ ex') = Inr (df @ ex' @ ex))"
proof (cases "m a")
  case None
  with assms show ?thesis by (auto simp: add_total_def)
next
  case (Some ka)
  note ka = this
  show ?thesis
  proof (cases "m b")
    case None
    with assms ka show ?thesis by (auto simp: add_total_def)
  next
    case (Some kb)
    from assms ka Some obtain S where S: "frame_add (kpi_rows df ka) (kpi_rows df kb) = Inr S"
      and out: "out = df @ map (total_row name) S"
      by (auto simp: add_total_def split: sum.splits)
    have "add_total m a b name (df @ ex') = Inr (df @ ex' @ map (total_row name) S)"
      if "\<forall>k r. (m a = Some k \<or> m b = Some k) \<longrightarrow> r \<in> set ex' \<longrightarrow> english_name r \<noteq> k" for ex'
    proof -
      from that ka Some have "kpi_rows ex' ka = []" "kpi_rows ex' kb = []"
        by (auto intro!: kpi_rows_other)
      then show ?thesis using ka Some S
        by (simp add: add_total_def kpi_rows_append)
    qed
    with out show ?thesis by (auto simp: total_row_def)
  qed
qed


lemma fold_upd_other:
  "\<forall>k\<in>set ks. normalize k \<noteq> key \<Longrightarrow>
     fold (\<lambda>kpi m. m(normalize kpi \<mapsto> kpi)) ks m key = m key"
  by (induction ks arbitrary: m) auto

lemma fold_upd_Some:
  "fold (\<lambda>kpi m. m(normalize kpi \<mapsto> kpi)) ks m key = Some k \<Longrightarrow>
     m key = Some k \<or> (k \<in> set ks \<and> normalize k = key)"
proof (induction ks arbitrary: m)
  case Nil
  then show ?case by simp
next
  case (Cons a ks)
  from Cons.prems have "fold (\<lambda>kpi m. m(normalize kpi \<mapsto> kpi)) ks (m(normalize a \<mapsto> a)) key = Some k"
    by (simp only: fold_simps comp_apply)
  from Cons.IH [OF this] show ?case
    by (auto split: if_splits)
qed

lemma fold_upd_None:
  "fold (\<lambda>kpi m. m(normalize kpi \<mapsto> kpi)) ks m key = None \<longleftrightarrow>
     m key = None \<and> key \<notin> normalize ` set ks"
  by (induction ks arbitrary: m) auto

lemma remdups_append_filter:
  "remdups (xs @ ys) = remdups (filter (\<lambda>x. x \<notin> set ys) xs) @ remdups ys"
  by (induction xs) auto

lemma unique_append: "unique (xs @ ys) = unique xs @ unique (filter (\<lambda>y. y \<notin> set xs) ys)"
proof -
  have "remdups (rev ys @ rev xs) = remdups (filter (\<lambda>y. y \<notin> set xs) (rev ys)) @ remdups (rev xs)"
    using remdups_append_filter [of "rev ys" "rev xs"] by simp
  then show ?thesis by (simp add: unique_def rev_filter)
qed

lemma set_unique: "set (unique xs) = set xs"
  by (simp add: unique_def)

lemma kpi_map_Some: "kpi_map df key = Some k \<Longrightarrow> normalize k = key \<and> k \<in> english_name ` set df"
  unfolding kpi_map_def by (drule fold_upd_Some) (auto simp: set_unique)

lemma kpi_map_None: "kpi_map df key = None \<longleftrightarrow> key \<notin> normalize ` english_name ` set df"
  unfolding kpi_map_def by (simp add: fold_upd_None set_unique image_image)

lemma kpi_map_append:
  assumes "\<forall>r\<in>set ex. normalize (english_name r) \<noteq> key"
  shows "kpi_map (df @ ex) key = kpi_map df key"
proof -
  have "\<forall>k\<in>set (unique (filter (\<lambda>y. y \<notin> set (map english_name df)) (map english_name ex))).
          normalize k \<noteq> key"
    using assms by (auto simp: set_unique)
  then show ?thesis
    unfolding kpi_map_def by (simp add: unique_append fold_upd_other)
qed

lemma normalize_totals:
  "normalize total_sales_name = ''total vehicle sales (verified)''"
  "normalize total_gp_name = ''total gross profit (verified)''"
  by code_simp+

lemma totals_not_components:
  "normalize k = new_sales_lower \<or> normalize k = used_sales_lower \<or>
   normalize k = new_gp_lower \<or> normalize k = used_gp_lower \<Longrightarrow>
     k \<noteq> total_sales_name \<and> k \<noteq> total_gp_name"
  using normalize_totals
  by (auto simp: new_sales_lower_def used_sales_lower_def new_gp_lower_def used_gp_lower_def)

lemma add_total_cong:
  "m a = m' a \<Longrightarrow> m b = m' b \<Longrightarrow> add_total m a b name df = add_total m' a b name df"
  by (simp add: add_total_def)

lemma summary_decompose:
  assumes "calculate_summary_kpis df = Inr df'"
  shows "\<exists>e1 e2. df' = df @ e1 @ e2 \<and>
           (\<forall>r\<in>set e1. english_name r = total_sales_name \<and> yhat_lower r = None \<and> yhat_upper r = None) \<and>
           (\<forall>r\<in>set e2. english_name r = total_gp_name \<and> yhat_lower r = None \<and> yhat_upper r = None) \<and>
           calculate_summary_kpis df' = Inr (df' @ e1 @ e2)"
proof -
  let ?m = "kpi_map df"
  from assms obtain d1 where
    d1: "add_total ?m new_sales_lower used_sales_lower total_sales_name df = Inr d1"
    and d2: "add_total ?m new_gp_lower used_gp_lower total_gp_name d1 = Inr df'"
    by (auto simp: calculate_summary_kpis_def Let_def split: sum.splits)
  from add_total_shape [OF d1] obtain e1 where e1: "d1 = df @ e1"
    and n1: "\<forall>r\<in>set e1. english_name r = total_sales_name \<and> yhat_lower r = None \<and> yhat_upper r = None"
    and r1: "\<And>ex'. (\<forall>k r. (?m new_sales_lower = Some k \<or> ?m used_sales_lower = Some k)
                 \<longrightarrow> r \<in> set ex' \<longrightarrow> english_name r \<noteq> k)
               \<Longrightarrow> add_total ?m new_sales_lower used_sales_lower total_sales_name (df @ ex')
                     = Inr (df @ ex' @ e1)"
    by blast
  from add_total_shape [OF d2] obtain e2 where e2: "df' = d1 @ e2"
    and n2: "\<forall>r\<in>set e2. english_name r = total_gp_name \<and> yhat_lower r = None \<and> yhat_upper r = None"
    and r2: "\<And>ex'. (\<forall>k r. (?m new_gp_lower = Some k \<or> ?m used_gp_lower = Some k)
                 \<longrightarrow> r \<in> set ex' \<longrightarrow> english_name r \<noteq> k)
               \<Longrightarrow> add_total ?m new_gp_lower used_gp_lower total_gp_name (d1 @ ex')
                     = Inr (d1 @ ex' @ e2)"
    by blast
  have df': "df' = df @ e1 @ e2" using e1 e2 by simp
  have names: "\<forall>r\<in>set (e1 @ e2). english_name r = total_sales_name \<or> english_name r = total_gp_name"
    using n1 n2 by auto
  have keys: "kpi_map df' key = ?m key"
    if "key = new_sales_lower \<or> key = used_sales_lower \<or> key = new_gp_lower \<or> key = used_gp_lower"
    for key
  proof -
    have "\<forall>r\<in>set (e1 @ e2). normalize (english_name r) \<noteq> key"
      using names that totals_not_components by metis
    then show ?thesis unfolding df' by (rule kpi_map_append)
  qed
  have avoid: "english_name r \<noteq> k"
    if "?m key = Some k" "r \<in> set (e1 @ e2)"
       "key = new_sales_lower \<or> key = used_sales_lower \<or> key = new_gp_lower \<or> key = used_gp_lower"
    for key k r
    using kpi_map_Some [OF that(1)] names that(2,3) totals_not_components by metis
  have s1: "add_total (kpi_map df') new_sales_lower used_sales_lower total_sales_name df'
              = Inr (df' @ e1)"
  proof -
    have "add_total ?m new_sales_lower used_sales_lower total_sales_name (df @ (e1 @ e2))
            = Inr (df @ (e1 @ e2) @ e1)"
      by (rule r1) (use avoid in blast)
    moreover have "add_total (kpi_map df') new_sales_lower used_sales_lower total_sales_name df'
        = add_total ?m new_sales_lower used_sales_lower total_sales_name df'"
      by (rule add_total_cong) (simp_all add: keys)
    ultimately show ?thesis by (simp add: df')
  qed
  have s2: "add_total (kpi_map df') new_gp_lower used_gp_lower total_gp_name (df' @ e1)
              = Inr (df' @ e1 @ e2)"
  proof -
    have "add_total ?m new_gp_lower used_gp_lower total_gp_name (d1 @ (e2 @ e1))
            = Inr (d1 @ (e2 @ e1) @ e2)"
      by (rule r2) (use avoid in auto)
    moreover have "add_total (kpi_map df') new_gp_lower used_gp_lower total_gp_name (df' @ e1)
        = add_total ?m new_gp_lower used_gp_lower total_gp_name (df' @ e1)"
      by (rule add_total_cong) (simp_all add: keys)
    ultimately show ?thesis by (simp add: df' e1)
  qed
  have "calculate_summary_kpis df' = Inr (df' @ e1 @ e2)"
    using s1 s2 by (simp add: calculate_summary_kpis_def Let_def)
  with df' n1 n2 show ?thesis by blast
qed

lemma summary_unresolved:
  assumes "new_sales_lower \<notin> normalize ` english_name ` set df \<or>
           used_sales_lower \<notin> normalize ` english_name ` set df"
      and "new_gp_lower \<notin> normalize ` english_name ` set df \<or>
           used_gp_lower \<notin> normalize ` english_name ` set df"
  shows "calculate_summary_kpis df = Inr df"
  using assms
  by (auto simp: calculate_summary_kpis_def Let_def kpi_map_None [symmetric] add_total_unresolved)

lemma ex_sales_summary: "calculate_summary_kpis ex_sales = Inr ex_sales_once"
  by code_simp

text \<open>
  Names that differ from the keys in case and in surrounding white space, the no-break
  space and the next-line character included, resolve: the total row is appended.
\<close>

lemma ex_nbsp_summary:
  "kpi_map ex_nbsp new_sales_lower = Some (''NEW VEHICLES - RETAIL'' @ [CHR 0xA0]) \<and>
   kpi_map ex_nbsp used_sales_lower = Some (CHR 0x85 # ''Used Vehicles - Retail'') \<and>
   calculate_summary_kpis ex_nbsp =
     Inr (ex_nbsp @
       [\<lparr>date = 1, english_name = total_sales_name, actual_value = Some 10,
         predicted_value = Some 17, yhat_lower = None, yhat_upper = None\<rparr>])"
  by code_simp

lemma normalize_latin1:
  "normalize [CHR 0xA0, CHR 0xC9, CHR ''T'', CHR 0xDE, CHR 0xD7, CHR 0x85]
     = [CHR 0xE9, CHR ''t'', CHR 0xFE, CHR 0xD7]"
  by code_simp

lemma ex_unresolved_keys:
  "used_sales_lower \<notin> normalize ` english_name ` set ex_unresolved"
  "new_gp_lower \<notin> normalize ` english_name ` set ex_unresolved"
  by code_simp+

lemma ex_sales_band:
  "yhat_lower (ex_sales ! 0) = Some 10 \<and> yhat_upper (ex_sales ! 3) = Some 7 \<and>
   length ex_sales = 4 \<and> length ex_sales_once = 6"
  by code_simp

text \<open>
  C8. Whenever \<open>calculate_summary_kpis\<close> returns a frame, that frame is the input frame
  followed by appended rows, all of which carry one of the two total names: no input row
  is changed or removed. When each of the two pairs has a component that no name of the
  frame normalises to, the function returns the input frame itself and raises nothing;
  and one \<open>if\<close> block alone (\<open>add_total\<close>) returns its frame unchanged as soon as
  one of its two keys is not in the map.
\<close>

theorem summary_rows_only_appended:
  "(calculate_summary_kpis df = Inr df' \<longrightarrow>
      (\<exists>ex. df' = df @ ex \<and>
         (\<forall>r\<in>set ex. english_name r = total_sales_name \<or> english_name r = total_gp_name))) \<and>
   ((new_sales_lower \<notin> normalize ` english_name ` set df \<or>
     used_sales_lower \<notin> normalize ` english_name ` set df) \<and>
    (new_gp_lower \<notin> normalize ` english_name ` set df \<or>
     used_gp_lower \<notin> normalize ` english_name ` set df) \<longrightarrow>
      calculate_summary_kpis df = Inr df) \<and>
   (m a_lower = None \<or> m b_lower = None \<longrightarrow>
      add_total m a_lower b_lower name df = Inr df)"
proof (intro conjI impI)
  assume "calculate_summary_kpis df = Inr df'"
  from summary_decompose [OF this] obtain e1 e2 where
    "df' = df @ e1 @ e2" "\<forall>r\<in>set e1. english_name r = total_sales_name"
    "\<forall>r\<in>set e2. english_name r = total_gp_name" by blast
  then show "\<exists>ex. df' = df @ ex \<and>
         (\<forall>r\<in>set ex. english_name r = total_sales_name \<or> english_name r = total_gp_name)"
    by (intro exI [of _ "e1 @ e2"]) auto
next
  assume "(new_sales_lower \<notin> normalize ` english_name ` set df \<or>
     used_sales_lower \<notin> normalize ` english_name ` set df) \<and>
    (new_gp_lower \<notin> normalize ` english_name ` set df \<or>
     used_gp_lower \<notin> normalize ` english_name ` set df)"
  then show "calculate_summary_kpis df = Inr df"
    using summary_unresolved by blast
next
  assume "m a_lower = None \<or> m b_lower = None"
  then show "add_total m a_lower b_lower name df = Inr df"
    by (rule add_total_unresolved)
qed

text \<open>
  Witness for C8: \<open>ex_unresolved\<close> has no used-sales and no new-gross-profit rows and
  comes back unchanged; \<open>ex_sales\<close> comes back followed by its two total rows.
\<close>

theorem summary_rows_only_appended_witness:
  "calculate_summary_kpis ex_unresolved = Inr ex_unresolved \<and>
   add_total Map.empty new_sales_lower used_sales_lower total_sales_name ex_sales = Inr ex_sales \<and>
   (\<exists>ex. ex_sales_once = ex_sales @ ex)"
  using summary_rows_only_appended
          [of ex_unresolved ex_unresolved Map.empty new_sales_lower used_sales_lower
              total_sales_name]
        summary_rows_only_appended
          [of ex_sales ex_sales_once Map.empty new_sales_lower used_sales_lower
              total_sales_name]
        ex_unresolved_keys ex_sales_summary
  by blast

text \<open>
  C10. Every row that \<open>calculate_summary_kpis\<close> appends has its \<open>yhat_lower\<close> and
  \<open>yhat_upper\<close> cells missing, whatever the component rows hold there: an appended
  row carries a date, the name of the total, \<open>actual_value\<close> and
  \<open>predicted_value\<close> only.
\<close>

theorem total_rows_other_columns_missing:
  "calculate_summary_kpis df = Inr df' \<Longrightarrow>
     \<forall>r\<in>set (drop (length df) df'). yhat_lower r = None \<and> yhat_upper r = None"
  by (drule summary_decompose) auto

text \<open>
  Witness for C10: the component rows of \<open>ex_sales\<close> have confidence bands, the two
  appended rows of its result have none.
\<close>

theorem total_rows_other_columns_missing_witness:
  "yhat_lower (ex_sales ! 0) = Some 10 \<and> yhat_upper (ex_sales ! 3) = Some 7 \<and>
   calculate_summary_kpis ex_sales = Inr ex_sales_once \<and>
   length ex_sales = 4 \<and> length ex_sales_once = 6 \<and>
   yhat_lower (ex_sales_once ! 4) = None \<and> yhat_upper (ex_sales_once ! 4) = None \<and>
   yhat_lower (ex_sales_once ! 5) = None \<and> yhat_upper (ex_sales_once ! 5) = None"
proof -
  have "ex_sales_once ! 4 \<in> set (drop (length ex_sales) ex_sales_once)"
       "ex_sales_once ! 5 \<in> set (drop (length ex_sales) ex_sales_once)"
    by code_simp+
  with total_rows_other_columns_missing [OF ex_sales_summary] ex_sales_band ex_sales_summary
  show ?thesis by blast
qed

text \<open>
  C4, as the code has it. \<open>calculate_summary_kpis\<close> is a function of its input, so two
  runs on the same frame return the same frame. It is not idempotent: applied to its own
  output it appends every total row a second time, and the second run leaves the frame
  unchanged exactly when the first run appended nothing.
\<close>

theorem summary_twice_appends_again:
  "calculate_summary_kpis df = Inr df' \<Longrightarrow>
     calculate_summary_kpis df' = Inr (df' @ drop (length df) df') \<and>
     (calculate_summary_kpis df' = Inr df' \<longleftrightarrow> df' = df)"
  by (drule summary_decompose) auto

text \<open>
  Counterexample to C4 as stated: the output for \<open>ex_sales\<close> has six rows, and the
  function applied to that output returns eight rows, not the same six.
\<close>

theorem summary_not_idempotent_counterexample:
  "calculate_summary_kpis ex_sales = Inr ex_sales_once \<and>
   calculate_summary_kpis ex_sales_once \<noteq> Inr ex_sales_once \<and>
   length ex_sales_once = 6 \<and>
   map_sum id length (calculate_summary_kpis ex_sales_once) = Inr 8"
  by code_simp

text \<open>Witness for the amended C4 on \<open>ex_sales\<close>.\<close>

theorem summary_twice_appends_again_witness:
  "calculate_summary_kpis ex_sales = Inr ex_sales_once \<and>
   calculate_summary_kpis ex_sales_once =
      Inr (ex_sales_once @ drop (length ex_sales) ex_sales_once) \<and>
   (calculate_summary_kpis ex_sales_once = Inr ex_sales_once \<longleftrightarrow> ex_sales_once = ex_sales)"
proof -
  have h: "calculate_summary_kpis ex_sales = Inr ex_sales_once" by code_simp
  from summary_twice_appends_again [OF h] h show ?thesis by blast
qed

section \<open>Properties of the correlation matrix\<close>

lemma covxy_commute: "covxy xs ys = covxy ys xs"
proof -
  have "covxy ys xs = (\<Sum>(y, x)\<leftarrow>map (\<lambda>(x, y). (y, x)) (zip xs ys). (y - mean ys) * (x - mean xs))"
    unfolding covxy_def by (subst zip_commute) simp
  also have "\<dots> = (\<Sum>(x, y)\<leftarrow>zip xs ys. (x - mean xs) * (y - mean ys))"
    by (simp add: comp_def case_prod_unfold mult.commute)
  finally show ?thesis by (simp add: covxy_def)
qed

lemma ssqdm_nonneg: "0 \<le> ssqdm xs"
  unfolding ssqdm_def by (rule sum_list_nonneg) auto

lemma ssqdm_Nil: "ssqdm [] = 0"
  by (simp add: ssqdm_def)

lemma covxy_same: "covxy xs xs = ssqdm xs"
  by (simp add: covxy_def ssqdm_def zip_same_conv_map comp_def)

lemma pearson_None_iff: "pearson xs ys = None \<longleftrightarrow> ssqdm xs = 0 \<or> ssqdm ys = 0"
  by (cases xs) (auto simp: pearson_def Let_def ssqdm_Nil)

lemma pearson_commute: "pearson xs ys = pearson ys xs"
proof (cases "ssqdm xs = 0 \<or> ssqdm ys = 0")
  case True
  then have "pearson xs ys = None" "pearson ys xs = None"
    by (auto simp: pearson_None_iff)
  then show ?thesis by simp
next
  case False
  then have "xs \<noteq> []" "ys \<noteq> []" by (auto simp: ssqdm_Nil)
  then show ?thesis
    by (cases xs; cases ys) (simp_all add: pearson_def Let_def covxy_commute mult.commute)
qed

lemma pearson_same: 
  assumes "ssqdm xs \<noteq> 0" 
  shows "pearson xs xs = Some 1"
proof -
  from assms have "xs \<noteq> []" by (auto simp: ssqdm_Nil)
  moreover have "sqrt (ssqdm xs * ssqdm xs) = ssqdm xs"
    using ssqdm_nonneg [of xs] by simp
  ultimately show ?thesis using assms
    by (cases xs) (simp_all add: pearson_def Let_def covxy_same)
qed

lemma cauchy_schwarz_pairs:
  fixes ps :: "(real \<times> real) list"
  shows "(\<Sum>(a, b)\<leftarrow>ps. a * b)\<^sup>2 \<le> (\<Sum>(a, b)\<leftarrow>ps. a * a) * (\<Sum>(a, b)\<leftarrow>ps. b * b)"
proof (induction ps)
  case Nil
  then show ?case by simp
next
  case (Cons p ps)
  obtain a b where p: "p = (a, b)" by (cases p)
  define S where "S = (\<Sum>(a, b)\<leftarrow>ps. a * b)"
  define A where "A = (\<Sum>(a, b)\<leftarrow>ps. a * a)"
  define B where "B = (\<Sum>(a, b)\<leftarrow>ps. b * b)"
  have A0: "0 \<le> A" unfolding A_def by (rule sum_list_nonneg) auto
  have B0: "0 \<le> B" unfolding B_def by (rule sum_list_nonneg) auto
  from Cons.IH have IH: "S\<^sup>2 \<le> A * B" by (simp add: S_def A_def B_def)
  then have "sqrt (S\<^sup>2) \<le> sqrt (A * B)" by (rule real_sqrt_le_mono)
  then have absS: "\<bar>S\<bar> \<le> sqrt A * sqrt B" by (simp add: real_sqrt_mult)
  have "2 * S * a * b \<le> 2 * \<bar>S\<bar> * \<bar>a * b\<bar>"
    by (metis abs_ge_self abs_mult abs_numeral mult.assoc)
  also have "\<dots> \<le> 2 * (sqrt A * sqrt B) * \<bar>a * b\<bar>"
    using absS by (intro mult_right_mono mult_left_mono) auto
  also have "\<dots> = 2 * (sqrt A * \<bar>b\<bar>) * (sqrt B * \<bar>a\<bar>)"
    by (simp add: abs_mult)
  also have "\<dots> \<le> (sqrt A * \<bar>b\<bar>)\<^sup>2 + (sqrt B * \<bar>a\<bar>)\<^sup>2"
    by (rule sum_squares_bound [simplified mult.assoc [symmetric]]) 
  also have "\<dots> = A * b\<^sup>2 + B * a\<^sup>2"
    using A0 B0 by (simp add: power_mult_distrib)
  finally have key: "2 * S * a * b \<le> A * b\<^sup>2 + B * a\<^sup>2" .
  have "(S + a * b)\<^sup>2 = S\<^sup>2 + 2 * S * a * b + a\<^sup>2 * b\<^sup>2"
    by (simp add: power2_eq_square algebra_simps)
  also have "\<dots> \<le> A * B + (A * b\<^sup>2 + B * a\<^sup>2) + a\<^sup>2 * b\<^sup>2"
    using IH key by simp
  also have "\<dots> = (A + a * a) * (B + b * b)"
    by (simp add: power2_eq_square algebra_simps)
  finally show ?case
    by (simp add: p S_def A_def B_def add.commute)
qed

lemma sum_list_zip_fst:
  "length xs = length ys \<Longrightarrow> (\<Sum>(x, y)\<leftarrow>zip xs ys. f x) = (\<Sum>x\<leftarrow>xs. f x)"
  by (induction xs ys rule: list_induct2) auto

lemma sum_list_zip_snd:
  "length xs = length ys \<Longrightarrow> (\<Sum>(x, y)\<leftarrow>zip xs ys. f y) = (\<Sum>y\<leftarrow>ys. f y)"
  by (induction xs ys rule: list_induct2) auto

lemma covxy_bound:
  assumes "length xs = length ys"
  shows "(covxy xs ys)\<^sup>2 \<le> ssqdm xs * ssqdm ys"
proof -
  let ?ps = "map (\<lambda>(x, y). (x - mean xs, y - mean ys)) (zip xs ys)"
  have 1: "(\<Sum>(a, b)\<leftarrow>?ps. a * b) = covxy xs ys"
    by (simp add: covxy_def comp_def case_prod_unfold)
  have 2: "(\<Sum>(a, b)\<leftarrow>?ps. a * a) = ssqdm xs"
    using sum_list_zip_fst [OF assms, of "\<lambda>x. (x - mean xs) * (x - mean xs)"]
    by (simp add: ssqdm_def comp_def case_prod_unfold)
  have 3: "(\<Sum>(a, b)\<leftarrow>?ps. b * b) = ssqdm ys"
    using sum_list_zip_snd [OF assms, of "\<lambda>y. (y - mean ys) * (y - mean ys)"]
    by (simp add: ssqdm_def comp_def case_prod_unfold)
  from cauchy_schwarz_pairs [of ?ps] show ?thesis
    by (simp only: 1 2 3)
qed

lemma pearson_bounds:
  assumes "length xs = length ys" and "pearson xs ys = Some r"
  shows "- 1 \<le> r \<and> r \<le> 1"
proof -
  let ?d = "sqrt (ssqdm xs * ssqdm ys)"
  from assms(2) have d: "?d \<noteq> 0" and r: "r = covxy xs ys / ?d"
    by (auto simp: pearson_def Let_def split: if_splits)
  have "0 \<le> ?d" using ssqdm_nonneg [of xs] ssqdm_nonneg [of ys] by simp
  with d have dpos: "0 < ?d" by linarith
  have "sqrt ((covxy xs ys)\<^sup>2) \<le> ?d"
    by (rule real_sqrt_le_mono) (rule covxy_bound [OF assms(1)])
  then have "\<bar>covxy xs ys\<bar> \<le> ?d" by simp
  then have "\<bar>r\<bar> \<le> 1" using dpos by (simp add: r)
  then show ?thesis by linarith
qed

lemma ssqdm_zero_iff: "ssqdm xs = 0 \<longleftrightarrow> (\<forall>x\<in>set xs. x = mean xs)"
proof -
  have "ssqdm xs = 0 \<longleftrightarrow> (\<forall>v\<in>set (map (\<lambda>x. (x - mean xs) * (x - mean xs)) xs). v = 0)"
    unfolding ssqdm_def by (rule sum_list_nonneg_eq_0_iff) auto
  then show ?thesis by auto
qed

lemma length_pivot_column: "length (pivot_column t a) = length (pivot_index t)"
  by (simp add: pivot_column_def)

lemma ssqdm_short: "length xs \<le> 1 \<Longrightarrow> ssqdm xs = 0"
  by (cases xs) (auto simp: ssqdm_def mean_def)

text \<open>
  C6. The correlation matrix is symmetric: the entry for \<open>(a, b)\<close> equals the entry
  for \<open>(b, a)\<close>, for all names (both are missing together). The diagonal
  entry of a KPI is \<open>1\<close> whenever its zero-filled column has a nonzero sum of squared
  deviations from its mean, that is, nonzero variance.
\<close>

theorem correlation_symmetric_unit_diagonal:
  "correlation_matrix cleaned_df a b = correlation_matrix cleaned_df b a \<and>
   (ssqdm (pivot_column cleaned_df a) \<noteq> 0 \<longrightarrow> correlation_matrix cleaned_df a a = Some 1)"
  by (simp add: correlation_matrix_def pearson_same) (rule pearson_commute)

lemma ex_hist_columns:
  "pivot_column ex_hist ''New Vehicles - Retail'' = [2, 0, 1]"
  "pivot_column ex_hist ''Gross Profit - New Vehicles'' = [2, 1, 0]"
  "pivot_column ex_hist ''Parts Sales'' = [7, 7, 7]"
  "''New Vehicles - Retail'' \<in> pivot_columns ex_hist"
  "''Gross Profit - New Vehicles'' \<in> pivot_columns ex_hist"
  "''Parts Sales'' \<in> pivot_columns ex_hist"
  by code_simp+

lemma ex_hist_ssqdm:
  "ssqdm (pivot_column ex_hist ''New Vehicles - Retail'') \<noteq> 0"
  "ssqdm (pivot_column ex_hist ''Parts Sales'') = 0"
  by code_simp+

lemma pearson_example: "pearson [2, 0, 1] [2, 1, 0] = Some (1 / 2)"
  by (simp add: pearson_def ssqdm_def covxy_def mean_def)

lemma ex_hist_correlation:
  "correlation_matrix ex_hist ''New Vehicles - Retail'' ''Gross Profit - New Vehicles'' = Some (1 / 2)"
  by (simp add: correlation_matrix_def ex_hist_columns pearson_example)

text \<open>
  Witness for C6 on \<open>ex_hist\<close>: new-vehicle sales vary, their diagonal entry is
  \<open>1\<close>, and the entry read in the other order is the same one half.
\<close>

theorem correlation_symmetric_unit_diagonal_witness:
  "ssqdm (pivot_column ex_hist ''New Vehicles - Retail'') \<noteq> 0 \<and>
   correlation_matrix ex_hist ''New Vehicles - Retail'' ''New Vehicles - Retail'' = Some 1 \<and>
   correlation_matrix ex_hist ''Gross Profit - New Vehicles'' ''New Vehicles - Retail'' = Some (1 / 2)"
  using correlation_symmetric_unit_diagonal
          [of ex_hist "''New Vehicles - Retail''" "''Gross Profit - New Vehicles''"]
        ex_hist_ssqdm(1) ex_hist_correlation
  by simp

text \<open>
  C7, as the code has it. An entry of the correlation matrix is missing (\<open>NaN\<close>)
  exactly when one of the two zero-filled columns has zero variance, which is always so
  with fewer than two dates; every other entry is a number between \<open>-1\<close> and
  \<open>1\<close>. The value \<open>0.0\<close> is substituted only when the driver or the impacted
  KPI is not a column of the matrix; for two columns of the matrix the planner reads
  the entry as it is, missing or not.
\<close>

theorem correlation_entries_bounded_or_nan:
  "(correlation_matrix cleaned_df a b = None \<longleftrightarrow>
      ssqdm (pivot_column cleaned_df a) = 0 \<or> ssqdm (pivot_column cleaned_df b) = 0) \<and>
   (correlation_matrix cleaned_df a b = Some r \<longrightarrow> - 1 \<le> r \<and> r \<le> 1) \<and>
   (length (pivot_index cleaned_df) < 2 \<longrightarrow> correlation_matrix cleaned_df a b = None) \<and>
   (a \<notin> pivot_columns cleaned_df \<or> b \<notin> pivot_columns cleaned_df \<longrightarrow>
      lookup_correlation cleaned_df a b = Some 0) \<and>
   (a \<in> pivot_columns cleaned_df \<and> b \<in> pivot_columns cleaned_df \<longrightarrow>
      lookup_correlation cleaned_df a b = correlation_matrix cleaned_df a b)"
proof -
  have 1: "correlation_matrix cleaned_df a b = None \<longleftrightarrow>
      ssqdm (pivot_column cleaned_df a) = 0 \<or> ssqdm (pivot_column cleaned_df b) = 0"
    by (simp add: correlation_matrix_def pearson_None_iff)
  have 2: "- 1 \<le> r \<and> r \<le> 1" if "correlation_matrix cleaned_df a b = Some r"
    using that unfolding correlation_matrix_def
    by (intro pearson_bounds [of "pivot_column cleaned_df a" "pivot_column cleaned_df b"])
       (simp_all add: length_pivot_column)
  have 3: "correlation_matrix cleaned_df a b = None" if "length (pivot_index cleaned_df) < 2"
  proof -
    from that have "ssqdm (pivot_column cleaned_df a) = 0"
      by (intro ssqdm_short) (simp add: length_pivot_column)
    then show ?thesis by (simp add: 1)
  qed
  have 4: "lookup_correlation cleaned_df a b = Some 0"
    if "a \<notin> pivot_columns cleaned_df \<or> b \<notin> pivot_columns cleaned_df"
    using that by (auto simp: lookup_correlation_def)
  have 5: "lookup_correlation cleaned_df a b = correlation_matrix cleaned_df a b"
    if "a \<in> pivot_columns cleaned_df \<and> b \<in> pivot_columns cleaned_df"
    using that by (simp add: lookup_correlation_def)
  from 1 2 3 4 5 show ?thesis by blast
qed

text \<open>
  Counterexample to C7 as stated: in \<open>ex_hist\<close> the parts sales never move, both
  names are columns of the matrix, and the entry the planner reads is missing, not
  \<open>0\<close>.
\<close>

theorem correlation_nan_counterexample:
  "''New Vehicles - Retail'' \<in> pivot_columns ex_hist \<and> ''Parts Sales'' \<in> pivot_columns ex_hist \<and>
   pivot_column ex_hist ''Parts Sales'' = [7, 7, 7] \<and>
   correlation_matrix ex_hist ''New Vehicles - Retail'' ''Parts Sales'' = None \<and>
   lookup_correlation ex_hist ''New Vehicles - Retail'' ''Parts Sales'' = None \<and>
   lookup_correlation ex_hist ''New Vehicles - Retail'' ''Parts Sales'' \<noteq> Some 0"
proof -
  have "correlation_matrix ex_hist ''New Vehicles - Retail'' ''Parts Sales'' = None"
    by (simp add: correlation_matrix_def pearson_None_iff ex_hist_ssqdm)
  then show ?thesis
    by (simp add: lookup_correlation_def ex_hist_columns)
qed

text \<open>Witness for the amended C7 on \<open>ex_hist\<close>.\<close>

theorem correlation_entries_bounded_or_nan_witness:
  "correlation_matrix ex_hist ''New Vehicles - Retail'' ''Gross Profit - New Vehicles'' = Some (1 / 2) \<and>
   - 1 \<le> (1 / 2 :: real) \<and> (1 / 2 :: real) \<le> 1 \<and>
   ssqdm (pivot_column ex_hist ''Parts Sales'') = 0 \<and>
   correlation_matrix ex_hist ''New Vehicles - Retail'' ''Parts Sales'' = None \<and>
   lookup_correlation ex_hist ''New Vehicles - Retail'' ''Unknown'' = Some 0 \<and>
   lookup_correlation ex_hist ''New Vehicles - Retail'' ''Gross Profit - New Vehicles'' = Some (1 / 2)"
proof -
  have u: "''Unknown'' \<notin> pivot_columns ex_hist" by code_simp
  from correlation_entries_bounded_or_nan
         [of ex_hist "''New Vehicles - Retail''" "''Gross Profit - New Vehicles''" "1 / 2"]
       correlation_entries_bounded_or_nan
         [of ex_hist "''New Vehicles - Retail''" "''Parts Sales''" 0]
       correlation_entries_bounded_or_nan
         [of ex_hist "''New Vehicles - Retail''" "''Unknown''" 0]
       ex_hist_correlation ex_hist_ssqdm(2) ex_hist_columns(4,5) u
  show ?thesis by simp
qed

section \<open>Properties of the scenario planner and the deep dive\<close>

lemma find_filter_Cons: "find P xs = Some x \<Longrightarrow> \<exists>rest. filter P xs = x # rest"
  by (induction xs) (auto split: if_splits)

lemma iloc0_find: "find P xs = Some x \<Longrightarrow> iloc0 (map f (filter P xs)) = Inr (f x)"
  by (drule find_filter_Cons) (auto simp: iloc0_def)

lemma scenario_eval:
  assumes "selected_month \<in> set (future_dates forecast_df driver_kpi)"
    and "find (\<lambda>r. english_name r = driver_kpi \<and> date r = selected_month) forecast_df = Some rd"
    and "find (\<lambda>r. english_name r = impacted_kpi \<and> date r = selected_month) forecast_df = Some ri"
  shows "render_scenario_planner forecast_df cleaned_df driver_kpi impacted_kpi selected_month slider =
     Inr (Planned
       \<lparr>sc_correlation = lookup_correlation cleaned_df driver_kpi impacted_kpi,
        sc_original_driver_pred = predicted_value rd,
        sc_original_impacted_pred = predicted_value ri,
        sc_adjusted_driver_pred = fmul (predicted_value rd) (Some (1 + real_of_int slider / 100)),
        sc_adjusted_impacted_pred =
          fmul (predicted_value ri)
            (fadd (Some 1) (fmul (Some (real_of_int slider / 100))
               (lookup_correlation cleaned_df driver_kpi impacted_kpi)))\<rparr>)"
proof -
  from assms(1) have ne: "future_dates forecast_df driver_kpi \<noteq> []" by auto
  note d = iloc0_find [OF assms(2), of predicted_value]
  note i = iloc0_find [OF assms(3), of predicted_value]
  show ?thesis
    unfolding render_scenario_planner_def Let_def using ne by (simp add: d i)
qed

text \<open>
  C1. Let the select box return one of the driver's future dates, let the first row of
  the driver at that date predict \<open>v\<close> and the first row of the impacted KPI at that
  date predict \<open>w\<close>, and let the correlation read for the pair be the number \<open>c\<close>.
  Then the planner returns the original values \<open>v\<close> and \<open>w\<close>, the adjusted driver
  \<open>v * (1 + p)\<close> and the adjusted impacted value \<open>w * (1 + p * c)\<close>, where
  \<open>p\<close> is the slider value divided by 100. In particular the impacted value is
  unchanged when \<open>c = 0\<close>, and \<open>v = 1000\<close>, \<open>p = 0.10\<close>, \<open>c = 0.5\<close> give
  \<open>1100\<close> and \<open>w * 1.05\<close>.
\<close>

theorem scenario_formulas:
  assumes "selected_month \<in> set (future_dates forecast_df driver_kpi)"
    and "find (\<lambda>r. english_name r = driver_kpi \<and> date r = selected_month) forecast_df = Some rd"
    and "predicted_value rd = Some v"
    and "find (\<lambda>r. english_name r = impacted_kpi \<and> date r = selected_month) forecast_df = Some ri"
    and "predicted_value ri = Some w"
    and "lookup_correlation cleaned_df driver_kpi impacted_kpi = Some c"
  shows "render_scenario_planner forecast_df cleaned_df driver_kpi impacted_kpi selected_month slider =
           Inr (Planned
             \<lparr>sc_correlation = Some c,
              sc_original_driver_pred = Some v,
              sc_original_impacted_pred = Some w,
              sc_adjusted_driver_pred = Some (v * (1 + real_of_int slider / 100)),
              sc_adjusted_impacted_pred = Some (w * (1 + real_of_int slider / 100 * c))\<rparr>) \<and>
         (c = 0 \<longrightarrow> w * (1 + real_of_int slider / 100 * c) = w) \<and>
         (v = 1000 \<and> slider = 10 \<and> c = 1 / 2 \<longrightarrow>
            v * (1 + real_of_int slider / 100) = 1100 \<and>
            w * (1 + real_of_int slider / 100 * c) = w * 1.05)"
  using scenario_eval [OF assms(1,2,4), of cleaned_df slider] assms(3,5,6)
  by (simp add: fmul_def fadd_def)

lemma ex_forecast_rows:
  "3 \<in> set (future_dates ex_forecast ''New Vehicles - Retail'')"
  "find (\<lambda>r. english_name r = ''New Vehicles - Retail'' \<and> date r = 3) ex_forecast
     = Some (forecast_row 3 ''New Vehicles - Retail'' None (Some 1000))"
  "find (\<lambda>r. english_name r = ''Gross Profit - New Vehicles'' \<and> date r = 3) ex_forecast
     = Some (forecast_row 3 ''Gross Profit - New Vehicles'' None (Some 400))"
  "find (\<lambda>r. english_name r = ''Service Revenue'' \<and> date r = 3) ex_forecast
     = Some (forecast_row 3 ''Service Revenue'' None (Some 250))"
  "predicted_value (forecast_row 3 ''New Vehicles - Retail'' None (Some 1000)) = Some 1000"
  "predicted_value (forecast_row 3 ''Gross Profit - New Vehicles'' None (Some 400)) = Some 400"
  "predicted_value (forecast_row 3 ''Service Revenue'' None (Some 250)) = Some 250"
  by code_simp+

lemma ex_hist_lookup:
  "lookup_correlation ex_hist ''New Vehicles - Retail'' ''Gross Profit - New Vehicles'' = Some (1 / 2)"
  "lookup_correlation ex_hist ''New Vehicles - Retail'' ''Service Revenue'' = Some 0"
proof -
  have "''Service Revenue'' \<notin> pivot_columns ex_hist" by code_simp
  then show "lookup_correlation ex_hist ''New Vehicles - Retail'' ''Service Revenue'' = Some 0"
    by (simp add: lookup_correlation_def)
  show "lookup_correlation ex_hist ''New Vehicles - Retail'' ''Gross Profit - New Vehicles'' = Some (1 / 2)"
    by (simp add: lookup_correlation_def ex_hist_columns ex_hist_correlation)
qed

text \<open>
  Witness for C1: the driver forecast of 1000 for date 3 raised by 10 percent, with
  correlation one half to a gross profit of 400; and the same driver lowered by 50 percent
  against a KPI without history, whose correlation defaults to \<open>0\<close>.
\<close>

theorem scenario_formulas_witness:
  "render_scenario_planner ex_forecast ex_hist ''New Vehicles - Retail''
       ''Gross Profit - New Vehicles'' 3 10 =
     Inr (Planned
       \<lparr>sc_correlation = Some (1 / 2),
        sc_original_driver_pred = Some 1000,
        sc_original_impacted_pred = Some 400,
        sc_adjusted_driver_pred = Some 1100,
        sc_adjusted_impacted_pred = Some 420\<rparr>) \<and>
   render_scenario_planner ex_forecast ex_hist ''New Vehicles - Retail''
       ''Service Revenue'' 3 (- 50) =
     Inr (Planned
       \<lparr>sc_correlation = Some 0,
        sc_original_driver_pred = Some 1000,
        sc_original_impacted_pred = Some 250,
        sc_adjusted_driver_pred = Some 500,
        sc_adjusted_impacted_pred = Some 250\<rparr>)"
  using scenario_formulas [OF ex_forecast_rows(1,2,5,3,6) ex_hist_lookup(1), of 10]
        scenario_formulas [OF ex_forecast_rows(1,2,5,4,7) ex_hist_lookup(2), of "- 50"]
  by simp

text \<open>
  C9. When no row of the driver KPI has a missing \<open>actual_value\<close>, the planner
  returns the outcome \<open>NoFutureData\<close> as a value, for every impacted KPI, historical
  frame and widget input: nothing is computed and nothing is raised.
\<close>

theorem no_future_data:
  assumes "\<forall>r\<in>set forecast_df. english_name r = driver_kpi \<longrightarrow> actual_value r \<noteq> None"
  shows "render_scenario_planner forecast_df cleaned_df driver_kpi impacted_kpi selected_month slider
           = Inr NoFutureData"
proof -
  from assms have "future_dates forecast_df driver_kpi = []"
    by (auto simp: future_dates_def filter_empty_conv)
  then show ?thesis by (simp add: render_scenario_planner_def)
qed

text \<open>Witness for C9: the driver of \<open>ex_history_only\<close> has two historical rows.\<close>

theorem no_future_data_witness:
  "render_scenario_planner ex_history_only ex_hist ''New Vehicles - Retail''
       ''Gross Profit - New Vehicles'' 3 10 = Inr NoFutureData"
proof -
  have h: "\<forall>r\<in>set ex_history_only.
             english_name r = ''New Vehicles - Retail'' \<longrightarrow> actual_value r \<noteq> None"
    by code_simp
  show ?thesis by (rule no_future_data [OF h])
qed

lemma sorted_take_drop_le:
  assumes "sorted (map f xs)" "a \<in> set (take n xs)" "b \<in> set xs" "b \<notin> set (take n xs)"
  shows "f a \<le> f b"
proof -
  from assms(3,4) have "b \<in> set (drop n xs)"
    by (metis Un_iff append_take_drop_id set_append)
  moreover from assms(1) have "sorted (map f (take n xs) @ map f (drop n xs))"
    by (simp flip: map_append)
  ultimately show ?thesis using assms(2) by (auto simp: sorted_append)
qed

text \<open>
  C5, as the code has it. The deep dive plots the rows of the selected KPI in frame
  order, and its forecast slice is the first three rows, in frame order, among those rows
  whose \<open>actual_value\<close> is missing; nothing is sorted. When the rows of the KPI are
  in ascending date order in the frame, the series and the slice are in ascending date
  order and no future row outside the slice is earlier than a row of the slice.
\<close>

theorem deep_dive_table_order:
  "dd_kpi_data (render_kpi_deep_dive df k) = filter (\<lambda>r. english_name r = k) df \<and>
   dd_forecasts (render_kpi_deep_dive df k) =
     take 3 (filter (\<lambda>r. actual_value r = None) (filter (\<lambda>r. english_name r = k) df)) \<and>
   (sorted (map date (filter (\<lambda>r. english_name r = k) df)) \<longrightarrow>
      sorted (map date (dd_kpi_data (render_kpi_deep_dive df k))) \<and>
      sorted (map date (dd_forecasts (render_kpi_deep_dive df k))) \<and>
      (\<forall>r\<in>set (dd_kpi_data (render_kpi_deep_dive df k)).
         actual_value r = None \<longrightarrow> r \<notin> set (dd_forecasts (render_kpi_deep_dive df k)) \<longrightarrow>
           (\<forall>f\<in>set (dd_forecasts (render_kpi_deep_dive df k)). date f \<le> date r)))"
proof -
  let ?K = "filter (\<lambda>r. english_name r = k) df"
  let ?F = "filter (\<lambda>r. actual_value r = None) ?K"
  have kd: "dd_kpi_data (render_kpi_deep_dive df k) = ?K"
    and fc: "dd_forecasts (render_kpi_deep_dive df k) = take 3 ?F"
    by (simp_all add: render_kpi_deep_dive_def Let_def)
  have "sorted (map date (take 3 ?F)) \<and>
        (\<forall>r\<in>set ?K. actual_value r = None \<longrightarrow> r \<notin> set (take 3 ?F) \<longrightarrow>
           (\<forall>f\<in>set (take 3 ?F). date f \<le> date r))"
    if s: "sorted (map date ?K)"
  proof -
    from s have sF: "sorted (map date ?F)" by (rule sorted_filter)
    then have "sorted (take 3 (map date ?F))" by (rule sorted_wrt_take)
    then have 1: "sorted (map date (take 3 ?F))" by (simp add: take_map)
    have 2: "date f \<le> date r"
      if "r \<in> set ?K" "actual_value r = None" "r \<notin> set (take 3 ?F)" "f \<in> set (take 3 ?F)" for r f
    proof -
      from that(1,2) have "r \<in> set ?F" by simp
      with sF that(3,4) show ?thesis by (intro sorted_take_drop_le [of date ?F f 3 r])
    qed
    from 1 2 show ?thesis by blast
  qed
  with kd fc show ?thesis by simp
qed

text \<open>
  Counterexample to C5 as stated: \<open>ex_unsorted\<close> lists five future rows latest
  first; the series comes back in that order and the slice holds the dates 5, 4, 3, not
  the three earliest dates 1, 2, 3.
\<close>

theorem deep_dive_unsorted_counterexample:
  "map date (dd_kpi_data (render_kpi_deep_dive ex_unsorted ''Parts Sales'')) = [5, 4, 3, 2, 1] \<and>
   \<not> sorted (map date (dd_kpi_data (render_kpi_deep_dive ex_unsorted ''Parts Sales''))) \<and>
   map date (dd_forecasts (render_kpi_deep_dive ex_unsorted ''Parts Sales'')) = [5, 4, 3] \<and>
   map date (dd_forecasts (render_kpi_deep_dive ex_unsorted ''Parts Sales'')) \<noteq> [1, 2, 3]"
  by code_simp

text \<open>Witness for the amended C5 on \<open>ex_sorted\<close>.\<close>

theorem deep_dive_table_order_witness:
  "sorted (map date (filter (\<lambda>r. english_name r = ''Parts Sales'') ex_sorted)) \<and>
   sorted (map date (dd_kpi_data (render_kpi_deep_dive ex_sorted ''Parts Sales''))) \<and>
   sorted (map date (dd_forecasts (render_kpi_deep_dive ex_sorted ''Parts Sales''))) \<and>
   map date (dd_forecasts (render_kpi_deep_dive ex_sorted ''Parts Sales'')) = [2, 3, 4]"
proof -
  have h: "sorted (map date (filter (\<lambda>r. english_name r = ''Parts Sales'') ex_sorted))"
    by code_simp
  have v: "map date (dd_forecasts (render_kpi_deep_dive ex_sorted ''Parts Sales'')) = [2, 3, 4]"
    by code_simp
  from deep_dive_table_order [of ex_sorted "''Parts Sales''"] h v show ?thesis by blast
qed

section \<open>When the sum of two component frames exists\<close>

text \<open>
  \<open>frame_add\<close> returns a frame exactly when the two components carry the same set of
  dates; otherwise it raises \<open>TypeError\<close>.
\<close>

lemma collect_all_Inr: "\<forall>x\<in>set xs. \<exists>v. x = Inr v \<Longrightarrow> \<exists>vs. collect xs = Inr vs"
  by (induction xs) (auto split: sum.splits)

lemma add_aligned_both:
  "add_aligned (d, Some l, Some r) =
     Inr \<lparr>s_date = d, s_english_name = Some (english_name l @ english_name r),
          s_actual_value = add_fill (actual_value l) (actual_value r),
          s_predicted_value = add_fill (predicted_value l) (predicted_value r),
          s_yhat_lower = add_fill (yhat_lower l) (yhat_lower r),
          s_yhat_upper = add_fill (yhat_upper l) (yhat_upper r)\<rparr>"
  by (simp add: add_aligned_def name_cell_def num_cell_def)

lemma add_aligned_one_side:
  "add_aligned (d, Some l, None) = Inl TypeError"
  "add_aligned (d, None, Some r) = Inl TypeError"
  by (simp_all add: add_aligned_def name_cell_def)

lemma zip_map_eq:
  assumes "map f A = map f B" and "(l, r) \<in> set (zip A B)"
  shows "f l = f r"
proof -
  from assms(2) obtain i where i: "i < length A" "i < length B" "A ! i = l" "B ! i = r"
    by (auto simp: in_set_zip)
  then have "f l = map f A ! i" "f r = map f B ! i" by simp_all
  with assms(1) show ?thesis by simp
qed

lemma join_at_left: "rs = [] \<Longrightarrow> l \<in> set ls \<Longrightarrow> (d, Some l, None) \<in> set (join_at d ls rs)"
  by (simp add: join_at_def)

lemma join_at_right:
  "rs \<noteq> [] \<Longrightarrow> ls = [] \<Longrightarrow> r \<in> set rs \<Longrightarrow> (d, None, Some r) \<in> set (join_at d ls rs)"
  by (simp add: join_at_def)

lemma join_at_mem:
  assumes "(d', l, r) \<in> set (join_at d ls rs)"
  shows "d' = d \<and> (\<forall>x. l = Some x \<longrightarrow> x \<in> set ls) \<and> (\<forall>y. r = Some y \<longrightarrow> y \<in> set rs) \<and>
         (l = None \<longleftrightarrow> ls = []) \<and> (r = None \<longleftrightarrow> rs = [])"
  using assms by (auto simp: join_at_def split: if_splits)

lemma align_mem:
  assumes "(d, l, r) \<in> set (align A B)"
  shows "(\<forall>x. l = Some x \<longrightarrow> x \<in> set A \<and> date x = d) \<and>
         (\<forall>y. r = Some y \<longrightarrow> y \<in> set B \<and> date y = d) \<and> (l \<noteq> None \<or> r \<noteq> None)"
proof (cases "map date A = map date B")
  case True
  with assms obtain l0 r0 where lr: "(l0, r0) \<in> set (zip A B)" "d = date l0" "l = Some l0" "r = Some r0"
    by (auto simp: align_def)
  from zip_map_eq [OF True lr(1)] lr show ?thesis
    by (auto dest: set_zip_leftD set_zip_rightD)
next
  case False
  with assms obtain d0 where d0: "d0 \<in> set (map date A) \<union> set (map date B)"
    and mem: "(d, l, r) \<in> set (join_at d0 (filter (\<lambda>r. date r = d0) A) (filter (\<lambda>r. date r = d0) B))"
    by (auto simp: align_def)
  from join_at_mem [OF mem] d0 show ?thesis
    by (auto simp: filter_empty_conv)
qed

lemma filter_date_empty: "filter (\<lambda>r. date r = d) A = [] \<longleftrightarrow> d \<notin> set (map date A)"
  by (induction A) auto

lemma align_join_sub:
  assumes "map date A \<noteq> map date B" and "d \<in> set (map date A) \<union> set (map date B)"
  shows "set (join_at d (filter (\<lambda>r. date r = d) A) (filter (\<lambda>r. date r = d) B)) \<subseteq> set (align A B)"
proof -
  from assms(2) have "d \<in> set (sort (remdups (map date A @ map date B)))" by simp
  then show ?thesis using assms(1) unfolding align_def by (simp only: if_False set_concat set_map) blast
qed

lemma align_set_differ:
  assumes "set (map date A) \<noteq> set (map date B)"
  shows "\<exists>d l r. (d, l, r) \<in> set (align A B) \<and> (l = None \<or> r = None)"
proof -
  have neq: "map date A \<noteq> map date B"
  proof
    assume "map date A = map date B"
    then have "set (map date A) = set (map date B)" by (simp only:)
    with assms show False by (simp only:)
  qed
  from assms obtain d where d: "d \<in> set (map date A) \<union> set (map date B)"
    and one: "d \<notin> set (map date A) \<or> d \<notin> set (map date B)" by blast
  let ?ls = "filter (\<lambda>r. date r = d) A" and ?rs = "filter (\<lambda>r. date r = d) B"
  from d one have e: "(?ls = [] \<and> ?rs \<noteq> []) \<or> (?rs = [] \<and> ?ls \<noteq> [])"
    unfolding filter_date_empty by blast
  have "\<exists>l r. (d, l, r) \<in> set (join_at d ?ls ?rs) \<and> (l = None \<or> r = None)"
  proof (cases "?rs = []")
    case True
    with e obtain l where "l \<in> set ?ls" by (cases ?ls) auto
    with True have "(d, Some l, None) \<in> set (join_at d ?ls ?rs)"
      by (intro join_at_left)
    then show ?thesis by blast
  next
    case False
    with e have ls: "?ls = []" by blast
    from False obtain r where "r \<in> set ?rs" by (cases ?rs) auto
    with False ls have "(d, None, Some r) \<in> set (join_at d ?ls ?rs)"
      by (intro join_at_right)
    then show ?thesis by blast
  qed
  with align_join_sub [OF neq d] show ?thesis by blast
qed

lemma frame_add_raises:
  assumes "set (map date A) \<noteq> set (map date B)"
  shows "frame_add A B = Inl TypeError"
proof -
  from align_set_differ [OF assms] obtain d l r where
    mem: "(d, l, r) \<in> set (align A B)" and none: "l = None \<or> r = None" by blast
  from align_mem [OF mem] have "l \<noteq> None \<or> r \<noteq> None" by blast
  with none consider (L) l0 where "l = Some l0" "r = None" | (R) r0 where "l = None" "r = Some r0"
    by (cases l; cases r) simp_all
  then have "add_aligned (d, l, r) = Inl TypeError"
    by cases (simp_all add: add_aligned_one_side)
  moreover from mem have "add_aligned (d, l, r) \<in> add_aligned ` set (align A B)"
    by (rule imageI)
  ultimately have "Inl TypeError \<in> set (map add_aligned (align A B))"
    by simp
  then obtain e where "frame_add A B = Inl e"
    unfolding frame_add_def by (blast dest: collect_mem_Inl)
  with frame_add_error show ?thesis by blast
qed

lemma align_set_equal:
  assumes "set (map date A) = set (map date B)" and "(d, l, r) \<in> set (align A B)"
  shows "l \<noteq> None \<and> r \<noteq> None"
proof (cases "map date A = map date B")
  case True
  with assms(2) show ?thesis by (auto simp: align_def)
next
  case False
  with assms(2) obtain d0 where d0: "d0 \<in> set (map date A) \<union> set (map date B)"
    and mem: "(d, l, r) \<in> set (join_at d0 (filter (\<lambda>r. date r = d0) A) (filter (\<lambda>r. date r = d0) B))"
    by (auto simp: align_def)
  from d0 assms(1) have "d0 \<in> set (map date A)" "d0 \<in> set (map date B)" by blast+
  then have "filter (\<lambda>r. date r = d0) A \<noteq> []" "filter (\<lambda>r. date r = d0) B \<noteq> []"
    unfolding filter_date_empty by blast+
  with join_at_mem [OF mem] show ?thesis by auto
qed

lemma frame_add_returns:
  assumes "set (map date A) = set (map date B)"
  shows "\<exists>S. frame_add A B = Inr S"
proof -
  have "\<forall>x\<in>set (map add_aligned (align A B)). \<exists>v. x = Inr v"
  proof
    fix x assume "x \<in> set (map add_aligned (align A B))"
    then obtain d l r where mem: "(d, l, r) \<in> set (align A B)" and x: "x = add_aligned (d, l, r)"
      by auto
    from align_set_equal [OF assms mem] obtain l0 r0 where "l = Some l0" "r = Some r0" by auto
    with x show "\<exists>v. x = Inr v" by (simp add: add_aligned_both)
  qed
  then show ?thesis unfolding frame_add_def by (rule collect_all_Inr)
qed

lemma frame_add_Inr_iff: "(\<exists>S. frame_add A B = Inr S) \<longleftrightarrow> set (map date A) = set (map date B)"
  by (metis frame_add_raises frame_add_returns Inl_Inr_False)

lemma frame_add_row_source:
  assumes "frame_add A B = Inr S" and "s \<in> set S"
  shows "\<exists>d l r. (d, Some l, Some r) \<in> set (align A B) \<and> add_aligned (d, Some l, Some r) = Inr s"
proof -
  from assms(1) have "map add_aligned (align A B) = map Inr S"
    unfolding frame_add_def by (rule collect_Inr_D)
  then have "set (map add_aligned (align A B)) = set (map Inr S)" by (rule arg_cong)
  moreover from assms(2) have "Inr s \<in> set (map Inr S)" by simp
  ultimately have "Inr s \<in> set (map add_aligned (align A B))" by (simp only:)
  then obtain t where t: "t \<in> set (align A B)" "add_aligned t = Inr s" by (auto simp: image_iff)
  obtain d l r where tt: "t = (d, l, r)" by (cases t)
  from align_mem [OF t(1) [unfolded tt]] have some: "l \<noteq> None \<or> r \<noteq> None" by blast
  have "l \<noteq> None \<and> r \<noteq> None"
  proof (rule ccontr)
    assume "\<not> (l \<noteq> None \<and> r \<noteq> None)"
    with some consider (L) l0 where "l = Some l0" "r = None" | (R) r0 where "l = None" "r = Some r0"
      by (cases l; cases r) simp_all
    then have "add_aligned (d, l, r) = Inl TypeError"
      by cases (simp_all add: add_aligned_one_side)
    with t(2) tt show False by simp
  qed
  then obtain l0 r0 where "l = Some l0" "r = Some r0" by auto
  with t tt show ?thesis by blast
qed

lemma frame_add_rows:
  assumes "frame_add A B = Inr S" and "s \<in> set S"
  shows "\<exists>l\<in>set A. \<exists>r\<in>set B. date l = s_date s \<and> date r = s_date s \<and>
           s_actual_value s = add_fill (actual_value l) (actual_value r) \<and>
           s_predicted_value s = add_fill (predicted_value l) (predicted_value r)"
proof -
  from frame_add_row_source [OF assms] obtain d l r where
    mem: "(d, Some l, Some r) \<in> set (align A B)" and s: "add_aligned (d, Some l, Some r) = Inr s"
    by blast
  from align_mem [OF mem] have "l \<in> set A" "date l = d" "r \<in> set B" "date r = d" by simp_all
  moreover from s have "s_date s = d"
    "s_actual_value s = add_fill (actual_value l) (actual_value r)"
    "s_predicted_value s = add_fill (predicted_value l) (predicted_value r)"
    by (auto simp: add_aligned_both)
  ultimately show ?thesis
    by (intro bexI [where x = l] bexI [where x = r]) simp_all
qed

lemma collect_map_proj:
  assumes "collect (map f xs) = Inr S" and "\<And>x s. f x = Inr s \<Longrightarrow> g s = h x"
  shows "map g S = map h xs"
  using assms(1)
proof (induction xs arbitrary: S)
  case Nil
  then show ?case by simp
next
  case (Cons x xs)
  from Cons.prems obtain s S' where s: "f x = Inr s" and S': "collect (map f xs) = Inr S'"
    and S: "S = s # S'"
    by (auto split: sum.splits)
  from Cons.IH [OF S'] assms(2) [OF s] S show ?case by simp
qed

lemma frame_add_index:
  assumes "frame_add A B = Inr S"
  shows "map s_date S = map fst (align A B)"
proof (rule collect_map_proj [OF assms [unfolded frame_add_def]])
  fix t s assume "add_aligned t = Inr s"
  then show "s_date s = fst t"
    by (cases t) (auto simp: add_aligned_def split: sum.splits)
qed


text \<open>
  What the sum holds when it exists. With each date at most once in either component
  and the same dates in both, the sum has exactly one row per date, in the order of the
  first component when the two date columns agree and in ascending order otherwise, and
  each of its cells is the sum of the two component cells with one missing side counted
  as \<open>0\<close> and two missing sides left missing.
\<close>

lemma align_index_same:
  assumes "map date A = map date B"
  shows "map fst (align A B) = map date A"
proof -
  from assms have len: "length A = length B" by (metis length_map)
  have "map fst (align A B) = map date (map fst (zip A B))"
    using assms by (simp add: align_def case_prod_unfold comp_def)
  with len show ?thesis by simp
qed

lemma filter_date_single:
  "distinct (map date A) \<Longrightarrow> d \<in> set (map date A) \<Longrightarrow> \<exists>l. filter (\<lambda>r. date r = d) A = [l]"
proof (induction A)
  case Nil
  then show ?case by simp
next
  case (Cons a A)
  show ?case
  proof (cases "date a = d")
    case True
    with Cons.prems(1) have "d \<notin> set (map date A)" by auto
    then have "filter (\<lambda>r. date r = d) A = []" by (simp add: filter_date_empty)
    with True show ?thesis by simp
  next
    case False
    with Cons.prems have "distinct (map date A)" "d \<in> set (map date A)" by auto
    from Cons.IH [OF this] False show ?thesis by simp
  qed
qed

lemma concat_singletons:
  "(\<And>d. d \<in> set ds \<Longrightarrow> map fst (F d) = [d]) \<Longrightarrow> map fst (concat (map F ds)) = ds"
  by (induction ds) simp_all

lemma align_index_joined:
  assumes "map date A \<noteq> map date B" and "distinct (map date A)" and "distinct (map date B)"
    and "set (map date A) = set (map date B)"
  shows "map fst (align A B) = sort (remdups (map date A @ map date B))"
proof -
  let ?ds = "sort (remdups (map date A @ map date B))"
  let ?F = "\<lambda>d. join_at d (filter (\<lambda>r. date r = d) A) (filter (\<lambda>r. date r = d) B)"
  have "map fst (?F d) = [d]" if "d \<in> set ?ds" for d
  proof -
    from that assms(4) have "d \<in> set (map date A)" "d \<in> set (map date B)" by auto
    with filter_date_single [OF assms(2)] filter_date_single [OF assms(3)]
    obtain l r where "filter (\<lambda>r. date r = d) A = [l]" "filter (\<lambda>r. date r = d) B = [r]"
      by blast
    then show ?thesis by (simp add: join_at_def)
  qed
  then have "map fst (concat (map ?F ?ds)) = ?ds" by (rule concat_singletons)
  with assms(1) show ?thesis by (simp add: align_def)
qed

lemma same_date_same_row:
  "distinct (map date A) \<Longrightarrow> l \<in> set A \<Longrightarrow> l' \<in> set A \<Longrightarrow> date l = date l' \<Longrightarrow> l = l'"
  by (auto simp: distinct_map dest: inj_onD)

lemma frame_add_same_dates:
  assumes "set (map date A) = set (map date B)"
    and "distinct (map date A)" and "distinct (map date B)"
  shows "\<exists>S. frame_add A B = Inr S \<and>
           map s_date S = (if map date A = map date B then map date A
                           else sort (remdups (map date A @ map date B))) \<and>
           distinct (map s_date S) \<and>
           set (map s_date S) = set (map date A) \<union> set (map date B) \<and>
           (\<forall>s\<in>set S. \<forall>l\<in>set A. \<forall>r\<in>set B. date l = s_date s \<longrightarrow> date r = s_date s \<longrightarrow>
              s_actual_value s = add_fill (actual_value l) (actual_value r) \<and>
              s_predicted_value s = add_fill (predicted_value l) (predicted_value r))"
proof -
  from frame_add_returns [OF assms(1)] obtain S where S: "frame_add A B = Inr S" by blast
  have idx: "map s_date S = (if map date A = map date B then map date A
                           else sort (remdups (map date A @ map date B)))"
    using frame_add_index [OF S] align_index_same [of A B]
          align_index_joined [OF _ assms(2,3,1)]
    by (cases "map date A = map date B") simp_all
  have dist: "distinct (map s_date S)"
  proof (cases "map date A = map date B")
    case True
    with idx assms(2) show ?thesis by simp
  next
    case False
    with idx show ?thesis by simp
  qed
  have dates: "set (map s_date S) = set (map date A) \<union> set (map date B)"
  proof (cases "map date A = map date B")
    case True
    with idx have "set (map s_date S) = set (map date A)" by simp
    with assms(1) show ?thesis by blast
  next
    case False
    with idx have "map s_date S = sort (remdups (map date A @ map date B))"
      by simp
    then have "set (map s_date S) = set (sort (remdups (map date A @ map date B)))"
      by (rule arg_cong)
    then show ?thesis by (simp only: set_sort set_remdups set_append)
  qed
  have vals: "s_actual_value s = add_fill (actual_value l) (actual_value r) \<and>
              s_predicted_value s = add_fill (predicted_value l) (predicted_value r)"
    if "s \<in> set S" "l \<in> set A" "r \<in> set B" "date l = s_date s" "date r = s_date s" for s l r
  proof -
    from frame_add_rows [OF S that(1)] obtain l' r' where
      l': "l' \<in> set A" "date l' = s_date s" and r': "r' \<in> set B" "date r' = s_date s"
      and v: "s_actual_value s = add_fill (actual_value l') (actual_value r')"
             "s_predicted_value s = add_fill (predicted_value l') (predicted_value r')"
      by blast
    have "l = l'" using same_date_same_row [OF assms(2) that(2) l'(1)] that(4) l'(2) by simp
    moreover have "r = r'" using same_date_same_row [OF assms(3) that(3) r'(1)] that(5) r'(2) by simp
    ultimately show ?thesis using v by simp
  qed
  from S idx dist dates vals show ?thesis by blast
qed

text \<open>
  \<open>calculate_summary_kpis\<close> returns a frame exactly when each pair that resolves has
  the same set of dates in its two components; on every other frame it raises
  \<open>TypeError\<close>.
\<close>

lemma add_total_returns_iff:
  "(\<exists>out. add_total m a b name df = Inr out) \<longleftrightarrow>
     (\<forall>ka kb. m a = Some ka \<and> m b = Some kb \<longrightarrow>
        set (map date (kpi_rows df ka)) = set (map date (kpi_rows df kb)))"
proof (cases "m a")
  case None
  then show ?thesis by (simp add: add_total_def)
next
  case (Some ka)
  note ka = this
  show ?thesis
  proof (cases "m b")
    case None
    with ka show ?thesis by (simp add: add_total_def)
  next
    case (Some kb)
    have "(\<exists>out. add_total m a b name df = Inr out) \<longleftrightarrow>
            (\<exists>S. frame_add (kpi_rows df ka) (kpi_rows df kb) = Inr S)"
      using ka Some by (auto simp: add_total_def split: sum.splits)
    with ka Some show ?thesis by (simp add: frame_add_Inr_iff)
  qed
qed


lemma summary_returns_iff:
  "(\<exists>df'. calculate_summary_kpis df = Inr df') \<longleftrightarrow>
     (\<forall>ka kb. kpi_map df new_sales_lower = Some ka \<and> kpi_map df used_sales_lower = Some kb \<longrightarrow>
        set (map date (kpi_rows df ka)) = set (map date (kpi_rows df kb))) \<and>
     (\<forall>ka kb. kpi_map df new_gp_lower = Some ka \<and> kpi_map df used_gp_lower = Some kb \<longrightarrow>
        set (map date (kpi_rows df ka)) = set (map date (kpi_rows df kb)))"
proof (cases "add_total (kpi_map df) new_sales_lower used_sales_lower total_sales_name df")
  case (Inl e)
  then have "\<not> (\<exists>out. add_total (kpi_map df) new_sales_lower used_sales_lower total_sales_name df = Inr out)"
    by simp
  then have "\<not> (\<forall>ka kb. kpi_map df new_sales_lower = Some ka \<and> kpi_map df used_sales_lower = Some kb \<longrightarrow>
        set (map date (kpi_rows df ka)) = set (map date (kpi_rows df kb)))"
    using add_total_returns_iff [of "kpi_map df" new_sales_lower used_sales_lower total_sales_name df]
    by blast
  moreover from Inl have "\<not> (\<exists>df'. calculate_summary_kpis df = Inr df')"
    by (simp add: calculate_summary_kpis_def Let_def)
  ultimately show ?thesis by blast
next
  case (Inr d1)
  then have sales: "\<forall>ka kb. kpi_map df new_sales_lower = Some ka \<and> kpi_map df used_sales_lower = Some kb \<longrightarrow>
        set (map date (kpi_rows df ka)) = set (map date (kpi_rows df kb))"
    using add_total_returns_iff [of "kpi_map df" new_sales_lower used_sales_lower total_sales_name df]
    by blast
  from add_total_shape [OF Inr] obtain e1 where d1: "d1 = df @ e1"
    and n1: "\<forall>r\<in>set e1. english_name r = total_sales_name" by blast
  have rows: "kpi_rows d1 k = kpi_rows df k"
    if "kpi_map df new_gp_lower = Some k \<or> kpi_map df used_gp_lower = Some k" for k
  proof -
    from that kpi_map_Some have "normalize k = new_gp_lower \<or> normalize k = used_gp_lower" by blast
    with totals_not_components have "k \<noteq> total_sales_name" by blast
    with n1 have "kpi_rows e1 k = []" by (intro kpi_rows_other) auto
    then show ?thesis by (simp add: d1 kpi_rows_append)
  qed
  have "(\<exists>df'. calculate_summary_kpis df = Inr df') \<longleftrightarrow>
          (\<exists>out. add_total (kpi_map df) new_gp_lower used_gp_lower total_gp_name d1 = Inr out)"
    using Inr by (simp add: calculate_summary_kpis_def Let_def)
  also have "\<dots> \<longleftrightarrow> (\<forall>ka kb. kpi_map df new_gp_lower = Some ka \<and> kpi_map df used_gp_lower = Some kb \<longrightarrow>
        set (map date (kpi_rows d1 ka)) = set (map date (kpi_rows d1 kb)))"
    by (rule add_total_returns_iff)
  also have "\<dots> \<longleftrightarrow> (\<forall>ka kb. kpi_map df new_gp_lower = Some ka \<and> kpi_map df used_gp_lower = Some kb \<longrightarrow>
        set (map date (kpi_rows df ka)) = set (map date (kpi_rows df kb)))"
    using rows by (metis (no_types, lifting))
  finally show ?thesis using sales by blast
qed

text \<open>
  C3 at the spec's own example: new sales on the dates 1 and 2, used sales on the dates
  2 and 3. Both components resolve, the union of the dates is 1, 2, 3, and the claim
  promises three total rows. Date 1 has no used-sales row and date 3 no new-sales row, so
  the sum of the two \<open>english_name\<close> columns adds a string and the fill value
  \<open>0\<close>: the function raises \<open>TypeError\<close> and returns no frame.
\<close>

theorem summary_union_dates_raises:
  "kpi_map ex_union new_sales_lower = Some ''New Vehicles - Retail'' \<and>
   kpi_map ex_union used_sales_lower = Some ''Used Vehicles - Retail'' \<and>
   map date (kpi_rows ex_union ''New Vehicles - Retail'') = [1, 2] \<and>
   map date (kpi_rows ex_union ''Used Vehicles - Retail'') = [2, 3] \<and>
   calculate_summary_kpis ex_union = Inl TypeError"
  by code_simp

text \<open>
  C2 at a date that only one component has: new sales on the dates 1 and 2 with
  \<open>actual_value\<close> 5 on date 1, used sales on date 2 only. The claim promises a
  total row on date 1 with \<open>actual_value\<close> \<open>5 + 0\<close>; the function raises
  \<open>TypeError\<close> for the same reason as above.
\<close>

theorem summary_one_sided_date_raises:
  "kpi_map ex_one_sided new_sales_lower = Some ''New Vehicles - Retail'' \<and>
   kpi_map ex_one_sided used_sales_lower = Some ''Used Vehicles - Retail'' \<and>
   map actual_value (filter (\<lambda>r. date r = 1) (kpi_rows ex_one_sided ''New Vehicles - Retail''))
     = [Some 5] \<and>
   filter (\<lambda>r. date r = 1) (kpi_rows ex_one_sided ''Used Vehicles - Retail'') = [] \<and>
   calculate_summary_kpis ex_one_sided = Inl TypeError"
  by code_simp

end
